theory Spec2Isabelle
  imports Main "HOL-Library.AList"
begin

section \<open>JavaScript values\<close>

text \<open>
  The values the logger and the Redis strategies receive. An object is the list of its own
  enumerable string-keyed properties, in the order \<open>Object.keys\<close> enumerates them (an array
  is the object whose keys are its indices). \<open>JError m\<close> is an \<open>Error\<close> instance with
  message \<open>m\<close>: its \<open>message\<close> and \<open>stack\<close> properties are not enumerable. Numbers are the
  integers (no \<open>NaN\<close>, no fractions).
\<close>

datatype jsval =
    JUndefined
  | JNull
  | JBool bool
  | JNum int
  | JStr string
  | JError string
  | JObj "(string \<times> jsval) list"

datatype jstype = TUndefined | TObject | TBoolean | TNumber | TString

text \<open>\<open>typeof null\<close> is \<open>'object'\<close>.\<close>

fun typeof :: "jsval \<Rightarrow> jstype" where
  "typeof JUndefined = TUndefined"
| "typeof JNull = TObject"
| "typeof (JBool b) = TBoolean"
| "typeof (JNum n) = TNumber"
| "typeof (JStr s) = TString"
| "typeof (JError m) = TObject"
| "typeof (JObj kvs) = TObject"

fun truthy :: "jsval \<Rightarrow> bool" where
  "truthy JUndefined = False"
| "truthy JNull = False"
| "truthy (JBool b) = b"
| "truthy (JNum n) = (n \<noteq> 0)"
| "truthy (JStr s) = (s \<noteq> [])"
| "truthy (JError m) = True"
| "truthy (JObj kvs) = True"

fun digits10 :: "nat \<Rightarrow> string" where
  "digits10 n =
     (if n < 10 then [char_of (48 + n)]
      else digits10 (n div 10) @ [char_of (48 + n mod 10)])"

declare digits10.simps [simp del]

text \<open>
  \<open>v.toString()\<close>. The logger calls it on a truthy value only; on \<open>undefined\<close> and \<open>null\<close>
  the call itself would throw, and the equations for them are never used.
\<close>

fun toString :: "jsval \<Rightarrow> string" where
  "toString JUndefined = ''undefined''"
| "toString JNull = ''null''"
| "toString (JBool b) = (if b then ''true'' else ''false'')"
| "toString (JNum n) = (if n < 0 then ''-'' @ digits10 (nat (- n)) else digits10 (nat n))"
| "toString (JStr s) = s"
| "toString (JError m) = (if m = [] then ''Error'' else ''Error: '' @ m)"
| "toString (JObj kvs) = ''[object Object]''"

datatype js_error = TypeError string | CFError string

datatype 'a outcome = Returned 'a | Thrown js_error

text \<open>\<open>Object.keys(obj)\<close>: throws on \<open>null\<close> and \<open>undefined\<close>; a primitive has no own keys
  (a string's index keys are not needed: the strategies call it on objects only).\<close>

fun Object_keys :: "jsval \<Rightarrow> js_error + string list" where
  "Object_keys JUndefined = Inl (TypeError ''Cannot convert undefined or null to object'')"
| "Object_keys JNull = Inl (TypeError ''Cannot convert undefined or null to object'')"
| "Object_keys (JObj kvs) = Inr (map fst kvs)"
| "Object_keys v = Inr []"

text \<open>\<open>obj[key]\<close>: a missing property reads as \<open>undefined\<close>.\<close>

fun js_get :: "jsval \<Rightarrow> string \<Rightarrow> jsval" where
  "js_get (JObj kvs) k = (case map_of kvs k of Some v \<Rightarrow> v | None \<Rightarrow> JUndefined)"
| "js_get v k = JUndefined"

section \<open>The Redis strategies\<close>

text \<open>
  The Redis client is the list of the commands it was sent, oldest first. The path stack is
  a JavaScript array: \<open>stack[0]\<close> is its first element, \<open>stack.pop()\<close> removes and returns
  its last. Both are passed by reference, so every \<open>push\<close> returns them as it leaves them.
\<close>

datatype redis_cmd =
    Rpush string jsval
  | Hmset string "jsval list"
  | Set string jsval

type_synonym redis_client = "redis_cmd list"

definition RedisFlattenStrategy_push ::
  "string set \<Rightarrow> jsval \<Rightarrow> string \<Rightarrow> redis_client \<Rightarrow> string list
     \<Rightarrow> bool outcome \<times> redis_client \<times> string list" where
  "RedisFlattenStrategy_push keys obj key redisClient stack =
     (if length stack = 1 \<and> typeof obj = TString \<and> stack ! 0 \<in> keys
      then (Returned True, redisClient @ [Rpush (key @ '':'' @ last stack) obj], butlast stack)
      else (Returned False, redisClient, stack))"

text \<open>The \<open>reduce\<close> of \<open>RedisSetStratry.push\<close>: key, value, key, value, ...\<close>

definition hsetKeysValues :: "jsval \<Rightarrow> string list \<Rightarrow> jsval list" where
  "hsetKeysValues obj ks = foldl (\<lambda>acc k. acc @ [JStr k, js_get obj k]) [] ks"

definition RedisSetStratry_push ::
  "jsval \<Rightarrow> string \<Rightarrow> redis_client \<Rightarrow> string list
     \<Rightarrow> bool outcome \<times> redis_client \<times> string list" where
  "RedisSetStratry_push obj key redisClient stack =
     (let wrap = (typeof obj \<noteq> TObject \<and> stack \<noteq> []);
          obj1 = (if wrap then JObj [(last stack, obj)] else obj);
          stack1 = (if wrap then butlast stack else stack)
      in if typeof obj1 = TObject
         then (case Object_keys obj1 of
                 Inl e \<Rightarrow> (Thrown e, redisClient, stack1)
               | Inr ks \<Rightarrow>
                   (Returned True, redisClient @ [Hmset key (hsetKeysValues obj1 ks)], stack1))
         else (Returned True, redisClient @ [Set key obj1], stack1))"

datatype strategy = RedisFlattenStrategy "string set" | RedisSetStratry

fun strategy_push ::
  "strategy \<Rightarrow> jsval \<Rightarrow> string \<Rightarrow> redis_client \<Rightarrow> string list
     \<Rightarrow> bool outcome \<times> redis_client \<times> string list" where
  "strategy_push (RedisFlattenStrategy keys) obj key c stack =
     RedisFlattenStrategy_push keys obj key c stack"
| "strategy_push RedisSetStratry obj key c stack = RedisSetStratry_push obj key c stack"

text \<open>\<open>strategies.some(...)\<close>: stops at the first strategy that returns true; an exception
  leaves the loop. The chain's own \<open>push\<close> returns nothing.\<close>

fun ChainRedisStrategy_push ::
  "strategy list \<Rightarrow> jsval \<Rightarrow> string \<Rightarrow> redis_client \<Rightarrow> string list
     \<Rightarrow> unit outcome \<times> redis_client \<times> string list" where
  "ChainRedisStrategy_push [] obj key c stack = (Returned (), c, stack)"
| "ChainRedisStrategy_push (s # ss) obj key c stack =
     (case strategy_push s obj key c stack of
        (r, c1, stack1) \<Rightarrow>
          (case r of
             Thrown e \<Rightarrow> (Thrown e, c1, stack1)
           | Returned b \<Rightarrow>
               if b then (Returned (), c1, stack1)
               else ChainRedisStrategy_push ss obj key c1 stack1))"

section \<open>The task logger\<close>

datatype status = PENDING | RUNNING | SUCCESS | ERROR | SKIPPED | WARNING

text \<open>
  A Firebase reference to a step: the \<open>n\<close>-th child that \<open>stepsRef.push\<close> made under the
  job's \<open>steps\<close> path, or the reference built from a URL (\<open>initializeStepReference\<close>).
\<close>

datatype fb_ref = StepRef nat | UrlRef string

text \<open>
  The step object of the source. \<open>step_id\<close> is its \<open>id\<close> and \<open>creationTimeStamp\<close> its
  creation time; the step that the constructor makes for \<open>initializeStepReference\<close> has
  neither (\<open>None\<close>). \<open>finishTimeStamp\<close> is \<open>None\<close> while the property is undefined, and
  an undefined \<open>hasWarning\<close> is \<open>False\<close>. The \<open>logs\<close> property is the empty object from
  creation on and is left out.
\<close>

record step =
  name :: string
  step_id :: "string option"
  creationTimeStamp :: "int option"
  status :: status
  finishTimeStamp :: "int option"
  hasWarning :: bool
  firebaseRef :: fb_ref

text \<open>
  The writes the logger issues to Firebase, in the order of the calls:
  \<^item> \<open>PushStep r n i t\<close>: \<open>stepsRef.push(step)\<close> of a new step with name \<open>n\<close>, id \<open>i\<close>,
    creation time \<open>t\<close> and status pending, which made the reference \<open>r\<close>;
  \<^item> \<open>UpdateStep r st f\<close>: \<open>r.update({status: st, finishTimeStamp: f})\<close>, where \<open>None\<close> is
    the empty string that \<open>create\<close> writes;
  \<^item> \<open>PushLog r line\<close>: \<open>r.child("logs").push(line)\<close>;
  \<^item> \<open>SetCreationTimeStamp r t\<close>: \<open>r.child("creationTimeStamp").set(t)\<close>;
  \<^item> \<open>SetJobStatus st\<close>: \<open>progressRef.child("status").set(st)\<close>;
  \<^item> \<open>SetLastUpdate t\<close>: \<open>progressRef.child("lastUpdate").set(t)\<close>.
\<close>

datatype fb_write =
    PushStep fb_ref string string int
  | UpdateStep fb_ref status "int option"
  | PushLog fb_ref string
  | SetCreationTimeStamp fb_ref int
  | SetJobStatus status
  | SetLastUpdate int

text \<open>
  What \<open>self.emit\<close> was called with: \<open>"step-pushed"\<close> with the step's name, or \<open>"error"\<close>
  with a \<open>CFError\<close>, given by the handler method that made it and the argument of its
  message (the step's status for \<open>start\<close>, the message or the error's string otherwise).
  Delivery is the emitter's: what Node's \<open>EventEmitter\<close> does with an \<open>"error"\<close> event that has
  no listener is not part of the model.
\<close>

datatype event =
    StepPushed string
  | ErrorEvent string "string option"

text \<open>
  The closure state of one \<open>TaskLogger\<close>. \<open>steps\<close> is the dictionary from \<open>id || name\<close> to
  the step objects, as the list of its entries in the order they were added (looked up with
  \<open>map_of\<close>, written with \<open>AList.update\<close>), so a key is present only when a step was
  stored under it (the properties a JavaScript object inherits, such as \<open>constructor\<close>, are
  not keys of the model). \<open>handler\<close> is the variable of that name: the handle that
  \<open>create\<close> returned last, given by the key of the step its closure holds, or \<open>None\<close> when
  undefined. \<open>clock\<close> is what
  \<open>new Date().getTime()\<close> returns (milliseconds). \<open>pushed\<close> counts the steps pushed, which
  names the next reference. \<open>watchers\<close> are the \<open>on("value")\<close> callbacks still registered,
  each with the name it compares against. \<open>requests\<close> are the POSTs of the event reporting
  (url, token, step name).
\<close>

record task_logger =
  firstStepCreationTime :: "int option"
  fatal :: bool
  finished :: bool
  steps :: "(string \<times> step) list"
  handler :: "string option"
  clock :: int
  pushed :: nat
  writes :: "fb_write list"
  events :: "event list"
  watchers :: "(fb_ref \<times> string) list"
  requests :: "(string \<times> string \<times> string) list"

text \<open>The constructor: it throws without a job id, a base URL or the Firebase library.\<close>

definition TaskLogger ::
  "string \<Rightarrow> int option \<Rightarrow> string \<Rightarrow> bool \<Rightarrow> string option \<Rightarrow> int
     \<Rightarrow> js_error + task_logger" where
  "TaskLogger jobId firstStepCreationTime_arg baseFirebaseUrl FirebaseLib initializeStepReference now =
     (if jobId = [] then
        Inl (CFError ''failed to create taskLogger because jobId must be provided'')
      else if baseFirebaseUrl = [] then
        Inl (CFError ''failed to create taskLogger because baseFirebaseUrl must be provided'')
      else if \<not> FirebaseLib then
        Inl (CFError ''failed to create taskLogger because Firebase lib reference must be provided'')
      else Inr
        \<lparr> firstStepCreationTime = firstStepCreationTime_arg,
          fatal = False,
          finished = False,
          steps =
            (case initializeStepReference of
               None \<Rightarrow> []
             | Some url \<Rightarrow>
                 if url = [] then []
                 else [(''Initializing Process'',
                   \<lparr> name = ''Initializing Process'', step_id = None, creationTimeStamp = None,
                     status = RUNNING, finishTimeStamp = None, hasWarning = False,
                     firebaseRef = UrlRef url \<rparr>)]),
          handler = None,
          clock = now,
          pushed = 0,
          writes = [],
          events = [],
          watchers = [],
          requests = [] \<rparr>)"

text \<open>\<open>id || name\<close> and \<open>id || ''\<close>: an undefined or empty id is falsy.\<close>

definition step_key :: "string \<Rightarrow> string option \<Rightarrow> string" where
  "step_key nm i = (case i of None \<Rightarrow> nm | Some x \<Rightarrow> if x \<noteq> [] then x else nm)"

definition id_or_empty :: "string option \<Rightarrow> string" where
  "id_or_empty i = (case i of None \<Rightarrow> [] | Some x \<Rightarrow> x)"

text \<open>\<open>+(new Date().getTime() / 1000).toFixed()\<close>: seconds, rounded to the nearest (a half
  goes up; the clock is not negative).\<close>

definition seconds :: "int \<Rightarrow> int" where
  "seconds ms = (ms + 500) div 1000"

definition crlf :: string where
  "crlf = [CHR 0x0D, CHR 0x0A]"

text \<open>The ANSI colours of the log lines: red for an error, bright yellow for a warning.\<close>

definition red_line :: "string \<Rightarrow> string" where
  "red_line m = CHR 0x1B # ''[31m'' @ m @ CHR 0x1B # ''[0m'' @ crlf"

definition yellow_line :: "string \<Rightarrow> string" where
  "yellow_line m = CHR 0x1B # ''[01;93m'' @ m @ CHR 0x1B # ''[0m'' @ crlf"

fun status_name :: "status \<Rightarrow> string" where
  "status_name PENDING = ''pending''"
| "status_name RUNNING = ''running''"
| "status_name SUCCESS = ''success''"
| "status_name ERROR = ''error''"
| "status_name SKIPPED = ''skipped''"
| "status_name WARNING = ''warning''"

text \<open>What \<open>create\<close> returns: the object of no-op methods, or a handle on the step under a key.\<close>

datatype handle = NullHandle | StepHandle string

definition create ::
  "string \<Rightarrow> string option \<Rightarrow> (string \<times> string) option \<Rightarrow> task_logger
     \<Rightarrow> handle \<times> task_logger" where
  "create nm i eventReporting s =
     (if fatal s \<or> finished s then (NullHandle, s)
      else
        let k = step_key nm i in
        (case map_of (steps s) k of
           None \<Rightarrow>
             let t = (case firstStepCreationTime s of
                        None \<Rightarrow> seconds (clock s)
                      | Some t0 \<Rightarrow>
                          if t0 \<noteq> 0 \<and> steps s = [] then t0 else seconds (clock s));
                 r = StepRef (pushed s);
                 st = \<lparr> name = nm, step_id = Some (id_or_empty i), creationTimeStamp = Some t,
                        status = PENDING, finishTimeStamp = None, hasWarning = False,
                        firebaseRef = r \<rparr>
             in (StepHandle k,
                 s\<lparr> steps := AList.update k st (steps s),
                    pushed := Suc (pushed s),
                    writes := writes s @ [PushStep r nm (id_or_empty i) t],
                    watchers := watchers s @ [(r, nm)],
                    requests :=
                      (case eventReporting of
                         None \<Rightarrow> requests s
                       | Some (url, token) \<Rightarrow> requests s @ [(url, token, nm)]),
                    handler := Some k \<rparr>)
         | Some st \<Rightarrow>
             (StepHandle k,
              s\<lparr> steps := AList.update k (st\<lparr>status := PENDING\<rparr>) (steps s),
                 writes := writes s @ [UpdateStep (firebaseRef st) PENDING None],
                 handler := Some k \<rparr>)))"

text \<open>
  The callback that \<open>create\<close> registers on the new reference, run when the store delivers a
  value whose name is \<open>val_name\<close> (\<open>None\<close> for no value or no name): on a match it removes the
  reference's listeners and emits \<open>"step-pushed"\<close>.
\<close>

definition on_value :: "fb_ref \<Rightarrow> string option \<Rightarrow> task_logger \<Rightarrow> task_logger" where
  "on_value r val_name s =
     (case map_of (watchers s) r of
        None \<Rightarrow> s
      | Some nm \<Rightarrow>
          if val_name = Some nm
          then s\<lparr> watchers := filter (\<lambda>w. fst w \<noteq> r) (watchers s),
                  events := events s @ [StepPushed nm] \<rparr>
          else s)"

subsection \<open>The methods of a step handle\<close>

text \<open>
  Each takes the key of the step its closure holds. A handle exists only for a step that
  \<open>create\<close> stored, and no step is ever removed, so the step is there; the \<open>None\<close> branch
  stands for no call at all.
\<close>

definition active :: "step \<Rightarrow> bool" where
  "active st = (status st = RUNNING \<or> status st = PENDING)"

definition handler_start :: "string \<Rightarrow> task_logger \<Rightarrow> task_logger" where
  "handler_start k s =
     (if fatal s then s
      else case map_of (steps s) k of
        None \<Rightarrow> s
      | Some st \<Rightarrow>
          if status st = PENDING
          then s\<lparr> steps := AList.update k (st\<lparr>status := RUNNING\<rparr>) (steps s),
                  writes := writes s @ [SetJobStatus RUNNING] \<rparr>
          else s\<lparr> events := events s @ [ErrorEvent ''start'' (Some (status_name (status st)))] \<rparr>)"

definition handler_write :: "string \<Rightarrow> string \<Rightarrow> task_logger \<Rightarrow> task_logger" where
  "handler_write k message s =
     (if fatal s then s
      else case map_of (steps s) k of
        None \<Rightarrow> s
      | Some st \<Rightarrow>
          if active st
          then s\<lparr> writes := writes s @ [PushLog (firebaseRef st) message, SetLastUpdate (clock s)] \<rparr>
          else s\<lparr> events := events s @ [ErrorEvent ''write'' (Some message)] \<rparr>)"

definition handler_debug :: "string \<Rightarrow> string \<Rightarrow> task_logger \<Rightarrow> task_logger" where
  "handler_debug k message s =
     (if fatal s then s
      else case map_of (steps s) k of
        None \<Rightarrow> s
      | Some st \<Rightarrow>
          if active st
          then s\<lparr> writes := writes s @
                    [PushLog (firebaseRef st) (message @ crlf), SetLastUpdate (clock s)] \<rparr>
          else s\<lparr> events := events s @ [ErrorEvent ''debug'' (Some message)] \<rparr>)"

definition handler_warn :: "string \<Rightarrow> string \<Rightarrow> task_logger \<Rightarrow> task_logger" where
  "handler_warn k message s =
     (if fatal s then s
      else case map_of (steps s) k of
        None \<Rightarrow> s
      | Some st \<Rightarrow>
          if active st
          then s\<lparr> steps := AList.update k (st\<lparr>hasWarning := True\<rparr>) (steps s),
                  writes := writes s @
                    [PushLog (firebaseRef st) (yellow_line message), SetLastUpdate (clock s)] \<rparr>
          else s\<lparr> events := events s @ [ErrorEvent ''warning'' (Some message)] \<rparr>)"

definition handler_info :: "string \<Rightarrow> string \<Rightarrow> task_logger \<Rightarrow> task_logger" where
  "handler_info k message s =
     (if fatal s then s
      else case map_of (steps s) k of
        None \<Rightarrow> s
      | Some st \<Rightarrow>
          if active st
          then s\<lparr> writes := writes s @
                    [PushLog (firebaseRef st) (message @ crlf), SetLastUpdate (clock s)] \<rparr>
          else s\<lparr> events := events s @ [ErrorEvent ''info'' (Some message)] \<rparr>)"

text \<open>The status that \<open>finish\<close> leaves, by the assignments of the source in their order.\<close>

definition finish_status :: "jsval \<Rightarrow> jsval \<Rightarrow> bool \<Rightarrow> status" where
  "finish_status err skip warned =
     (let st0 = (if truthy err then ERROR else SUCCESS);
          st1 = (if truthy skip then SKIPPED else st0)
      in if \<not> truthy err \<and> warned then WARNING else st1)"

definition handler_finish :: "string \<Rightarrow> jsval \<Rightarrow> jsval \<Rightarrow> task_logger \<Rightarrow> task_logger" where
  "handler_finish k err skip s =
     (if fatal s then s
      else case map_of (steps s) k of
        None \<Rightarrow> s
      | Some st \<Rightarrow>
          if active st
          then
            let t = seconds (clock s);
                st' = st\<lparr> finishTimeStamp := Some t,
                         status := finish_status err skip (hasWarning st) \<rparr>
            in s\<lparr> steps := AList.update k st' (steps s),
                  writes := writes s @
                    (if truthy err then [PushLog (firebaseRef st) (red_line (toString err))] else []) @
                    [UpdateStep (firebaseRef st) (status st') (Some t), SetLastUpdate (clock s)],
                  handler := None \<rparr>
          else s\<lparr> events := events s @
                    [ErrorEvent ''finish'' (if truthy err then Some (toString err) else None)] \<rparr>)"

definition handler_resetCreationTimeStamp :: "string \<Rightarrow> task_logger \<Rightarrow> task_logger" where
  "handler_resetCreationTimeStamp k s =
     (if fatal s then s
      else case map_of (steps s) k of
        None \<Rightarrow> s
      | Some st \<Rightarrow>
          if active st
          then s\<lparr> writes := writes s @
                    [SetCreationTimeStamp (firebaseRef st) (seconds (clock s)),
                     SetLastUpdate (clock s)] \<rparr>
          else s\<lparr> events := events s @ [ErrorEvent ''resetCreationTimeStamp'' None] \<rparr>)"

text \<open>A method call on a handle, and what it returns.\<close>

datatype operation =
    Start
  | GetReference
  | GetLogsReference
  | GetLastUpdateReference
  | Write string
  | Debug string
  | Warn string
  | Info string
  | Finish jsval jsval
  | ResetCreationTimeStamp
  | GetStatus

datatype ret =
    RetUndefined
  | RetStatus status
  | RetStepRef fb_ref
  | RetLogsRef fb_ref
  | RetLastUpdateRef

text \<open>
  The object that \<open>create\<close> returns on a fatal or finished job has the eight methods
  \<open>getReference\<close>, \<open>getLogsReference\<close>, \<open>getLastUpdateReference\<close>, \<open>write\<close>, \<open>debug\<close>, \<open>warn\<close>,
  \<open>info\<close> and \<open>finish\<close>, each with an empty body. Calling a property it does not have is a
  \<open>TypeError\<close>.
\<close>

fun null_call :: "operation \<Rightarrow> ret outcome" where
  "null_call Start = Thrown (TypeError ''start is not a function'')"
| "null_call ResetCreationTimeStamp = Thrown (TypeError ''resetCreationTimeStamp is not a function'')"
| "null_call GetStatus = Thrown (TypeError ''getStatus is not a function'')"
| "null_call m = Returned RetUndefined"

fun step_call :: "string \<Rightarrow> operation \<Rightarrow> task_logger \<Rightarrow> ret outcome \<times> task_logger" where
  "step_call k Start s = (Returned RetUndefined, handler_start k s)"
| "step_call k GetReference s =
     (case map_of (steps s) k of
        None \<Rightarrow> (Returned RetUndefined, s)
      | Some st \<Rightarrow> (Returned (RetStepRef (firebaseRef st)), s))"
| "step_call k GetLogsReference s =
     (case map_of (steps s) k of
        None \<Rightarrow> (Returned RetUndefined, s)
      | Some st \<Rightarrow> (Returned (RetLogsRef (firebaseRef st)), s))"
| "step_call k GetLastUpdateReference s = (Returned RetLastUpdateRef, s)"
| "step_call k (Write m) s = (Returned RetUndefined, handler_write k m s)"
| "step_call k (Debug m) s = (Returned RetUndefined, handler_debug k m s)"
| "step_call k (Warn m) s = (Returned RetUndefined, handler_warn k m s)"
| "step_call k (Info m) s = (Returned RetUndefined, handler_info k m s)"
| "step_call k (Finish err skip) s = (Returned RetUndefined, handler_finish k err skip s)"
| "step_call k ResetCreationTimeStamp s = (Returned RetUndefined, handler_resetCreationTimeStamp k s)"
| "step_call k GetStatus s =
     (case map_of (steps s) k of
        None \<Rightarrow> (Returned RetUndefined, s)
      | Some st \<Rightarrow> (Returned (RetStatus (status st)), s))"

fun call :: "handle \<Rightarrow> operation \<Rightarrow> task_logger \<Rightarrow> ret outcome \<times> task_logger" where
  "call NullHandle m s = (null_call m, s)"
| "call (StepHandle k) m s = step_call k m s"

subsection \<open>The methods of the logger\<close>

definition finish :: "jsval \<Rightarrow> task_logger \<Rightarrow> task_logger" where
  "finish err s =
     (if fatal s then s
      else (case handler s of
              Some k \<Rightarrow> handler_finish k err JUndefined s
            | None \<Rightarrow> s)\<lparr> finished := True \<rparr>)"

definition fatalError :: "jsval \<Rightarrow> task_logger \<Rightarrow> unit outcome \<times> task_logger" where
  "fatalError err s =
     (if \<not> truthy err then
        (Thrown (CFError ''fatalError was called without an error. not valid.''), s)
      else if fatal s then (Returned (), s)
      else
        (Returned (),
         (case handler s of
            Some k \<Rightarrow> handler_finish k err JUndefined s
          | None \<Rightarrow>
              (case create ''Something went wrong'' None None s of
                 (errorStep, s1) \<Rightarrow> snd (call errorStep (Finish err JUndefined) s1)))
         \<lparr> fatal := True \<rparr>))"

text \<open>
  \<open>addErrorMessageToEndOfSteps\<close>, when the store answers the query for the last step with
  the references \<open>snapshot\<close>: a red line is pushed to the logs of each.
\<close>

definition addErrorMessageToEndOfSteps :: "fb_ref list \<Rightarrow> string \<Rightarrow> task_logger \<Rightarrow> task_logger" where
  "addErrorMessageToEndOfSteps snapshot message s =
     s\<lparr> writes := writes s @ map (\<lambda>r. PushLog r (red_line message)) snapshot \<rparr>"

subsection \<open>Runs of the logger\<close>

text \<open>
  Everything that can happen to a logger: a call of one of its methods, a call on a handle,
  the store answering, and time passing.
\<close>

datatype action =
    Create string "string option" "(string \<times> string) option"
  | Call handle operation
  | JobFinish jsval
  | FatalError jsval
  | AddErrorMessage "fb_ref list" string
  | OnValue fb_ref "string option"
  | Tick int

fun run :: "action \<Rightarrow> task_logger \<Rightarrow> task_logger" where
  "run (Create nm i er) s = snd (create nm i er s)"
| "run (Call h m) s = snd (call h m s)"
| "run (JobFinish err) s = finish err s"
| "run (FatalError err) s = snd (fatalError err s)"
| "run (AddErrorMessage snapshot message) s = addErrorMessageToEndOfSteps snapshot message s"
| "run (OnValue r v) s = on_value r v s"
| "run (Tick t) s = s\<lparr> clock := t \<rparr>"

fun runs :: "action list \<Rightarrow> task_logger \<Rightarrow> task_logger" where
  "runs [] s = s"
| "runs (a # as) s = runs as (run a s)"

text \<open>The states a logger can be in: those a run reaches from a constructed logger.\<close>

inductive reachable :: "task_logger \<Rightarrow> bool" where
  init: "TaskLogger jobId t0 url lib ref now = Inr s \<Longrightarrow> reachable s"
| step: "reachable s \<Longrightarrow> reachable (run a s)"

subsection \<open>The store as the writes leave it\<close>

text \<open>
  The record Firebase holds for a step and for the job, as far as the logger writes it: a
  field nobody wrote is \<open>None\<close>, and so is a finish time that was overwritten with the empty
  string. \<open>push\<close> stores a new child, \<open>update\<close> overwrites the fields it names and leaves the
  others, \<open>set\<close> overwrites one field, a push to \<open>logs\<close> appends a line.
\<close>

record stored_step =
  stored_name :: "string option"
  stored_id :: "string option"
  stored_creationTimeStamp :: "int option"
  stored_status :: "status option"
  stored_finishTimeStamp :: "int option"
  stored_logs :: "string list"

record store =
  stored_steps :: "fb_ref \<Rightarrow> stored_step"
  job_status :: "status option"
  lastUpdate :: "int option"

fun apply_write :: "store \<Rightarrow> fb_write \<Rightarrow> store" where
  "apply_write db (PushStep r n i t) =
     db\<lparr> stored_steps := (stored_steps db)(r :=
            \<lparr> stored_name = Some n, stored_id = Some i, stored_creationTimeStamp = Some t,
              stored_status = Some PENDING, stored_finishTimeStamp = None, stored_logs = [] \<rparr>) \<rparr>"
| "apply_write db (UpdateStep r st f) =
     db\<lparr> stored_steps := (stored_steps db)(r :=
            (stored_steps db r)\<lparr> stored_status := Some st, stored_finishTimeStamp := f \<rparr>) \<rparr>"
| "apply_write db (PushLog r line) =
     db\<lparr> stored_steps := (stored_steps db)(r :=
            (stored_steps db r)\<lparr> stored_logs := stored_logs (stored_steps db r) @ [line] \<rparr>) \<rparr>"
| "apply_write db (SetCreationTimeStamp r t) =
     db\<lparr> stored_steps := (stored_steps db)(r :=
            (stored_steps db r)\<lparr> stored_creationTimeStamp := Some t \<rparr>) \<rparr>"
| "apply_write db (SetJobStatus st) = db\<lparr> job_status := Some st \<rparr>"
| "apply_write db (SetLastUpdate t) = db\<lparr> lastUpdate := Some t \<rparr>"

definition persisted :: "store \<Rightarrow> task_logger \<Rightarrow> store" where
  "persisted db0 s = foldl apply_write db0 (writes s)"

subsection \<open>A logger to run\<close>

text \<open>The logger of job \<open>J1\<close>, as the constructor returns it with no first creation time and
  no initialising step.\<close>

definition example_logger :: task_logger where
  "example_logger =
     \<lparr> firstStepCreationTime = None, fatal = False, finished = False, steps = [],
       handler = None, clock = 1500000000000, pushed = 0, writes = [], events = [],
       watchers = [], requests = [] \<rparr>"

text \<open>The step that \<open>create("build")\<close> makes in the example logger.\<close>

definition build_step :: step where
  "build_step =
     \<lparr> name = ''build'', step_id = Some [], creationTimeStamp = Some 1500000000,
       status = PENDING, finishTimeStamp = None, hasWarning = False,
       firebaseRef = StepRef 0 \<rparr>"

text \<open>The logger after \<open>create("build")\<close>.\<close>

definition build_pending :: task_logger where
  "build_pending = run (Create ''build'' None None) example_logger"

text \<open>Then \<open>warn("disk space low")\<close> on the handle.\<close>

definition build_warned :: task_logger where
  "build_warned = run (Call (StepHandle ''build'') (Warn ''disk space low'')) build_pending"


text \<open>The logger after \<open>create("build")\<close> and \<open>fatalError(new Error("boom"))\<close>.\<close>

definition build_failed :: task_logger where
  "build_failed = run (FatalError (JError ''boom'')) build_pending"

text \<open>A store in which nothing was written yet.\<close>

definition empty_store :: store where
  "empty_store =
     \<lparr> stored_steps =
         (\<lambda>r. \<lparr> stored_name = None, stored_id = None, stored_creationTimeStamp = None,
                 stored_status = None, stored_finishTimeStamp = None, stored_logs = [] \<rparr>),
       job_status = None, lastUpdate = None \<rparr>"

text \<open>The two scenarios of the specification: a step that succeeds, and a step that warns.\<close>

definition scenario_build :: task_logger where
  "scenario_build =
     runs [Create ''build'' None None,
           Call (StepHandle ''build'') Start,
           Call (StepHandle ''build'') (Write ''compiling''),
           Call (StepHandle ''build'') (Finish JUndefined JUndefined)] example_logger"

definition scenario_deploy :: task_logger where
  "scenario_deploy =
     runs [Create ''deploy'' None None,
           Call (StepHandle ''deploy'') Start,
           Call (StepHandle ''deploy'') (Warn ''disk space low''),
           Call (StepHandle ''deploy'') (Finish JUndefined JUndefined)] example_logger"

subsection \<open>Notions the properties use\<close>

text \<open>The variable \<open>handler\<close>, when defined, holds a handle on a pending or running step.\<close>

definition handler_ok :: "task_logger \<Rightarrow> bool" where
  "handler_ok s =
     (case handler s of
        None \<Rightarrow> True
      | Some k \<Rightarrow> (case map_of (steps s) k of None \<Rightarrow> False | Some st \<Rightarrow> active st))"



section \<open>Properties of the Redis strategies\<close>

lemma foldl_kv_acc:
  "foldl (\<lambda>acc k. acc @ [JStr k, js_get obj k]) acc ks
     = acc @ concat (map (\<lambda>k. [JStr k, js_get obj k]) ks)"
  by (induction ks arbitrary: acc) simp_all

lemma hsetKeysValues_concat:
  "hsetKeysValues obj ks = concat (map (\<lambda>k. [JStr k, js_get obj k]) ks)"
  by (simp add: hsetKeysValues_def foldl_kv_acc)

lemma hsetKeysValues_pairs:
  assumes "distinct (map fst kvs)"
  shows "hsetKeysValues (JObj kvs) (map fst kvs) = concat (map (\<lambda>(k, v). [JStr k, v]) kvs)"
proof -
  have "\<And>k v. (k, v) \<in> set kvs \<Longrightarrow> js_get (JObj kvs) k = v"
    using assms by simp
  then have "map (\<lambda>k. [JStr k, js_get (JObj kvs) k]) (map fst kvs) = map (\<lambda>(k, v). [JStr k, v]) kvs"
    by (auto simp: comp_def)
  then show ?thesis by (simp only: hsetKeysValues_concat)
qed

lemma typeof_string_iff: "typeof obj = TString \<longleftrightarrow> (\<exists>v. obj = JStr v)"
  by (cases obj) simp_all

lemma flatten_claim_cond:
  "(length stack = 1 \<and> typeof obj = TString \<and> stack ! 0 \<in> keys)
     \<longleftrightarrow> (\<exists>f v. stack = [f] \<and> obj = JStr v \<and> f \<in> keys)"
  by (cases stack) (auto simp: typeof_string_iff)

lemma flatten_claims:
  "stack = [f] \<Longrightarrow> obj = JStr v \<Longrightarrow> f \<in> keys \<Longrightarrow>
     RedisFlattenStrategy_push keys obj key c stack
       = (Returned True, c @ [Rpush (key @ '':'' @ f) obj], [])"
  by (simp add: RedisFlattenStrategy_push_def)

lemma flatten_declines:
  "\<not> (\<exists>f v. stack = [f] \<and> obj = JStr v \<and> f \<in> keys) \<Longrightarrow>
     RedisFlattenStrategy_push keys obj key c stack = (Returned False, c, stack)"
  unfolding RedisFlattenStrategy_push_def flatten_claim_cond by simp

lemma set_scalar_empty_stack:
  "typeof obj \<noteq> TObject \<Longrightarrow>
     RedisSetStratry_push obj key c [] = (Returned True, c @ [Set key obj], [])"
  by (simp add: RedisSetStratry_push_def)

lemma chain_scalar_empty_stack:
  "typeof obj \<noteq> TObject \<Longrightarrow>
     ChainRedisStrategy_push [RedisFlattenStrategy keys, RedisSetStratry] obj key c []
       = (Returned (), c @ [Set key obj], [])"
  by (simp add: RedisFlattenStrategy_push_def set_scalar_empty_stack)


text \<open>
  Claim C8. The flatten strategy claims a write (returns true) exactly when the path stack
  has one entry, the value is a string and the entry is one of the strategy's keys. When it
  claims, it sends \<open>rpush\<close> of the value to the list \<open>key:entry\<close>; otherwise it returns
  false and sends nothing, so a chain of the flatten strategy and the catch-all writes a
  value that is not an object, pushed with an empty stack, by \<open>set(key, value)\<close>.
\<close>

theorem C8_flatten_claims_exactly:
  "(fst (RedisFlattenStrategy_push keys obj key c stack) = Returned True
      \<longleftrightarrow> (\<exists>f v. stack = [f] \<and> obj = JStr v \<and> f \<in> keys))
   \<and> (\<forall>f v. stack = [f] \<and> obj = JStr v \<and> f \<in> keys \<longrightarrow>
         RedisFlattenStrategy_push keys obj key c stack
           = (Returned True, c @ [Rpush (key @ '':'' @ f) obj], []))
   \<and> (\<not> (\<exists>f v. stack = [f] \<and> obj = JStr v \<and> f \<in> keys) \<longrightarrow>
         RedisFlattenStrategy_push keys obj key c stack = (Returned False, c, stack))
   \<and> (typeof obj \<noteq> TObject \<longrightarrow>
         ChainRedisStrategy_push [RedisFlattenStrategy keys, RedisSetStratry] obj key c []
           = (Returned (), c @ [Set key obj], []))"
proof (intro conjI allI impI)
  show "fst (RedisFlattenStrategy_push keys obj key c stack) = Returned True
      \<longleftrightarrow> (\<exists>f v. stack = [f] \<and> obj = JStr v \<and> f \<in> keys)"
    unfolding RedisFlattenStrategy_push_def flatten_claim_cond by simp
next
  fix f v assume "stack = [f] \<and> obj = JStr v \<and> f \<in> keys"
  then show "RedisFlattenStrategy_push keys obj key c stack
           = (Returned True, c @ [Rpush (key @ '':'' @ f) obj], [])"
    by (simp add: flatten_claims)
next
  assume "\<not> (\<exists>f v. stack = [f] \<and> obj = JStr v \<and> f \<in> keys)"
  then show "RedisFlattenStrategy_push keys obj key c stack = (Returned False, c, stack)"
    by (rule flatten_declines)
next
  assume "typeof obj \<noteq> TObject"
  then show "ChainRedisStrategy_push [RedisFlattenStrategy keys, RedisSetStratry] obj key c []
           = (Returned (), c @ [Set key obj], [])"
    by (rule chain_scalar_empty_stack)
qed


text \<open>
  Claim C8, at the inputs of the spec: \<open>"hello"\<close> with the stack \<open>["log"]\<close>, with a stack whose
  entry is not a key, and with the empty stack.
\<close>

theorem C8_flatten_claims_exactly_witness:
  "RedisFlattenStrategy_push {''log''} (JStr ''hello'') ''k'' [] [''log'']
     = (Returned True, [Rpush ''k:log'' (JStr ''hello'')], [])
   \<and> RedisFlattenStrategy_push {''log''} (JStr ''hello'') ''k'' [] [''meta'']
     = (Returned False, [], [''meta''])
   \<and> ChainRedisStrategy_push [RedisFlattenStrategy {''log''}, RedisSetStratry] (JStr ''hello'') ''k'' [] []
     = (Returned (), [Set ''k'' (JStr ''hello'')], [])"
proof (intro conjI)
  note claims = C8_flatten_claims_exactly [of "{''log''}" "JStr ''hello''" "''k''" "[]" "[''log'']"]
  note declines = C8_flatten_claims_exactly [of "{''log''}" "JStr ''hello''" "''k''" "[]" "[''meta'']"]
  show "RedisFlattenStrategy_push {''log''} (JStr ''hello'') ''k'' [] [''log'']
     = (Returned True, [Rpush ''k:log'' (JStr ''hello'')], [])"
    using claims [THEN conjunct2, THEN conjunct1, rule_format, where f = "''log''" and v = "''hello''"]
    by simp
  show "RedisFlattenStrategy_push {''log''} (JStr ''hello'') ''k'' [] [''meta'']
     = (Returned False, [], [''meta''])"
    using declines [THEN conjunct2, THEN conjunct2, THEN conjunct1] by simp
  show "ChainRedisStrategy_push [RedisFlattenStrategy {''log''}, RedisSetStratry] (JStr ''hello'') ''k'' [] []
     = (Returned (), [Set ''k'' (JStr ''hello'')], [])"
    using claims [THEN conjunct2, THEN conjunct2, THEN conjunct2] by simp
qed

text \<open>
  Claim C9 says that the catch-all strategy handles every input. At \<open>null\<close> it does not:
  \<open>typeof null\<close> is \<open>'object'\<close>, so the value is not wrapped and \<open>Object.keys(null)\<close> throws
  before any command is sent, whatever the stack.
\<close>

theorem C9_catch_all_throws_on_null:
  "RedisSetStratry_push JNull key c stack
     = (Thrown (TypeError ''Cannot convert undefined or null to object''), c, stack)
   \<and> ChainRedisStrategy_push [RedisSetStratry] JNull key c stack
     = (Thrown (TypeError ''Cannot convert undefined or null to object''), c, stack)"
  by (simp add: RedisSetStratry_push_def)

lemma set_push_not_null:
  assumes "obj \<noteq> JNull"
  shows "fst (RedisSetStratry_push obj key c stack) = Returned True"
  using assms by (cases obj) (simp_all add: RedisSetStratry_push_def Let_def)

text \<open>
  On every value but \<open>null\<close> the catch-all strategy returns true: a value that is not an
  object is wrapped under the top of a non-empty stack and written by \<open>hmset\<close>, or written by
  \<open>set\<close> when the stack is empty; an object is written by \<open>hmset\<close> with its fields and values
  alternating, whatever the stack.
\<close>

theorem catch_all_handles_every_value_but_null:
  assumes "obj \<noteq> JNull"
  shows "fst (RedisSetStratry_push obj key c stack) = Returned True
    \<and> (typeof obj \<noteq> TObject \<and> stack \<noteq> [] \<longrightarrow>
         RedisSetStratry_push obj key c stack
           = (Returned True, c @ [Hmset key [JStr (last stack), obj]], butlast stack))
    \<and> (typeof obj \<noteq> TObject \<and> stack = [] \<longrightarrow>
         RedisSetStratry_push obj key c stack = (Returned True, c @ [Set key obj], []))
    \<and> (\<forall>kvs. obj = JObj kvs \<and> distinct (map fst kvs) \<longrightarrow>
         RedisSetStratry_push obj key c stack
           = (Returned True, c @ [Hmset key (concat (map (\<lambda>(k, v). [JStr k, v]) kvs))], stack))
    \<and> (\<forall>m. obj = JError m \<longrightarrow>
         RedisSetStratry_push obj key c stack = (Returned True, c @ [Hmset key []], stack))"
proof (intro conjI allI impI)
  show "fst (RedisSetStratry_push obj key c stack) = Returned True"
    using assms by (rule set_push_not_null)
next
  assume "typeof obj \<noteq> TObject \<and> stack \<noteq> []"
  then show "RedisSetStratry_push obj key c stack
           = (Returned True, c @ [Hmset key [JStr (last stack), obj]], butlast stack)"
    by (simp add: RedisSetStratry_push_def Let_def hsetKeysValues_def)
next
  assume "typeof obj \<noteq> TObject \<and> stack = []"
  then show "RedisSetStratry_push obj key c stack = (Returned True, c @ [Set key obj], [])"
    by (simp add: set_scalar_empty_stack)
next
  fix kvs assume "obj = JObj kvs \<and> distinct (map fst kvs)"
  then show "RedisSetStratry_push obj key c stack
           = (Returned True, c @ [Hmset key (concat (map (\<lambda>(k, v). [JStr k, v]) kvs))], stack)"
    by (simp add: RedisSetStratry_push_def Let_def hsetKeysValues_pairs)
next
  fix m assume "obj = JError m"
  then show "RedisSetStratry_push obj key c stack = (Returned True, c @ [Hmset key []], stack)"
    by (simp add: RedisSetStratry_push_def Let_def hsetKeysValues_def)
qed

text \<open>
  The catch-all strategy at \<open>{a: 1, b: 2}\<close> and at a number with a two-entry stack.
\<close>

theorem catch_all_handles_every_value_but_null_witness:
  "RedisSetStratry_push (JObj [(''a'', JNum 1), (''b'', JNum 2)]) ''k'' [] [''log'']
     = (Returned True, [Hmset ''k'' [JStr ''a'', JNum 1, JStr ''b'', JNum 2]], [''log''])
   \<and> RedisSetStratry_push (JNum 7) ''k'' [] [''x'', ''cpu'']
     = (Returned True, [Hmset ''k'' [JStr ''cpu'', JNum 7]], [''x''])"
proof (intro conjI)
  have ne: "JObj [(''a'', JNum 1), (''b'', JNum 2)] \<noteq> JNull" by simp
  show "RedisSetStratry_push (JObj [(''a'', JNum 1), (''b'', JNum 2)]) ''k'' [] [''log'']
     = (Returned True, [Hmset ''k'' [JStr ''a'', JNum 1, JStr ''b'', JNum 2]], [''log''])"
    using catch_all_handles_every_value_but_null [OF ne, of "''k''" "[]" "[''log'']",
        THEN conjunct2, THEN conjunct2, THEN conjunct2, THEN conjunct1, rule_format,
        where kvs = "[(''a'', JNum 1), (''b'', JNum 2)]"]
    by simp
  have ne7: "JNum 7 \<noteq> JNull" by simp
  show "RedisSetStratry_push (JNum 7) ''k'' [] [''x'', ''cpu'']
     = (Returned True, [Hmset ''k'' [JStr ''cpu'', JNum 7]], [''x''])"
    using catch_all_handles_every_value_but_null [OF ne7, of "''k''" "[]" "[''x'', ''cpu'']",
        THEN conjunct2, THEN conjunct1]
    by simp
qed

text \<open>
  Claim C10. Both strategies change the caller's stack: the flatten strategy pops its last
  entry when it claims the write and the catch-all pops it when it wraps a value that is not
  an object. So after a push through the chain of both, with such a value and a non-empty
  stack, the stack has lost its top; a second push with the same stack object sees the
  shorter stack: after a claimed string the next string is written by \<open>set\<close>.
\<close>

theorem C10_push_pops_callers_stack:
  "snd (snd (RedisFlattenStrategy_push keys obj key c stack))
     = (if fst (RedisFlattenStrategy_push keys obj key c stack) = Returned True
        then butlast stack else stack)
   \<and> snd (snd (RedisSetStratry_push obj key c stack))
     = (if typeof obj \<noteq> TObject \<and> stack \<noteq> [] then butlast stack else stack)
   \<and> (typeof obj \<noteq> TObject \<and> stack \<noteq> [] \<longrightarrow>
        snd (snd (ChainRedisStrategy_push [RedisFlattenStrategy keys, RedisSetStratry] obj key c stack))
          = butlast stack)
   \<and> (\<forall>f a b. f \<in> keys \<longrightarrow>
        (case ChainRedisStrategy_push [RedisFlattenStrategy keys, RedisSetStratry] (JStr a) key c [f] of
           (r, c1, stack1) \<Rightarrow>
             ChainRedisStrategy_push [RedisFlattenStrategy keys, RedisSetStratry] (JStr b) key c1 stack1)
          = (Returned (), c @ [Rpush (key @ '':'' @ f) (JStr a), Set key (JStr b)], []))"
proof (intro conjI allI impI)
  show "snd (snd (RedisFlattenStrategy_push keys obj key c stack))
     = (if fst (RedisFlattenStrategy_push keys obj key c stack) = Returned True
        then butlast stack else stack)"
    by (simp add: RedisFlattenStrategy_push_def)
next
  show "snd (snd (RedisSetStratry_push obj key c stack))
     = (if typeof obj \<noteq> TObject \<and> stack \<noteq> [] then butlast stack else stack)"
    by (cases obj) (simp_all add: RedisSetStratry_push_def Let_def)
next
  assume a: "typeof obj \<noteq> TObject \<and> stack \<noteq> []"
  then have "snd (snd (RedisSetStratry_push obj key c stack)) = butlast stack"
    by (simp add: RedisSetStratry_push_def Let_def)
  moreover have "fst (RedisSetStratry_push obj key c stack) = Returned True"
    using a by (intro set_push_not_null) auto
  ultimately show "snd (snd (ChainRedisStrategy_push [RedisFlattenStrategy keys, RedisSetStratry] obj key c stack))
          = butlast stack"
    by (cases "RedisSetStratry_push obj key c stack")
       (auto simp: RedisFlattenStrategy_push_def)
next
  fix f a b assume "f \<in> keys"
  then show "(case ChainRedisStrategy_push [RedisFlattenStrategy keys, RedisSetStratry] (JStr a) key c [f] of
           (r, c1, stack1) \<Rightarrow>
             ChainRedisStrategy_push [RedisFlattenStrategy keys, RedisSetStratry] (JStr b) key c1 stack1)
          = (Returned (), c @ [Rpush (key @ '':'' @ f) (JStr a), Set key (JStr b)], [])"
    by (simp add: RedisFlattenStrategy_push_def RedisSetStratry_push_def)
qed

text \<open>
  Claim C10, at a claimed string, a wrapped number, and two pushes with one stack.
\<close>

theorem C10_push_pops_callers_stack_witness:
  "snd (snd (RedisFlattenStrategy_push {''log''} (JStr ''hello'') ''k'' [] [''log''])) = []
   \<and> snd (snd (RedisSetStratry_push (JNum 7) ''k'' [] [''x'', ''cpu''])) = [''x'']
   \<and> (case ChainRedisStrategy_push [RedisFlattenStrategy {''log''}, RedisSetStratry] (JStr ''a'') ''k'' [] [''log''] of
         (r, c1, stack1) \<Rightarrow>
           ChainRedisStrategy_push [RedisFlattenStrategy {''log''}, RedisSetStratry] (JStr ''b'') ''k'' c1 stack1)
       = (Returned (), [Rpush ''k:log'' (JStr ''a''), Set ''k'' (JStr ''b'')], [])"
proof (intro conjI)
  have claimed: "fst (RedisFlattenStrategy_push {''log''} (JStr ''hello'') ''k'' [] [''log'']) = Returned True"
    by (simp add: RedisFlattenStrategy_push_def)
  show "snd (snd (RedisFlattenStrategy_push {''log''} (JStr ''hello'') ''k'' [] [''log''])) = []"
    using C10_push_pops_callers_stack [of "{''log''}" "JStr ''hello''" "''k''" "[]" "[''log'']",
        THEN conjunct1] claimed
    by simp
  show "snd (snd (RedisSetStratry_push (JNum 7) ''k'' [] [''x'', ''cpu''])) = [''x'']"
    using C10_push_pops_callers_stack [of "{''log''}" "JNum 7" "''k''" "[]" "[''x'', ''cpu'']",
        THEN conjunct2, THEN conjunct1]
    by simp
  show "(case ChainRedisStrategy_push [RedisFlattenStrategy {''log''}, RedisSetStratry] (JStr ''a'') ''k'' [] [''log''] of
         (r, c1, stack1) \<Rightarrow>
           ChainRedisStrategy_push [RedisFlattenStrategy {''log''}, RedisSetStratry] (JStr ''b'') ''k'' c1 stack1)
       = (Returned (), [Rpush ''k:log'' (JStr ''a''), Set ''k'' (JStr ''b'')], [])"
    using C10_push_pops_callers_stack [of "{''log''}" "JStr ''a''" "''k''" "[]" "[''log'']",
        THEN conjunct2, THEN conjunct2, THEN conjunct2, rule_format,
        where f = "''log''" and a = "''a''" and b = "''b''"]
    by (simp add: RedisFlattenStrategy_push_def)
qed

section \<open>Properties of the task logger\<close>

subsection \<open>The example logger and the invariant of the handler variable\<close>

lemma example_logger_constructed:
  "TaskLogger ''J1'' None ''https://example.firebaseio.com/'' True None 1500000000000
     = Inr example_logger"
  by (simp add: TaskLogger_def example_logger_def)

lemma reachable_example_logger: "reachable example_logger"
  using example_logger_constructed by (rule reachable.init)

lemma create_null:
  "fatal s \<or> finished s \<Longrightarrow> create nm i er s = (NullHandle, s)"
  by (simp add: create_def)


lemma active_simps [simp]:
  "active (st\<lparr>status := PENDING\<rparr>)"
  "active (st\<lparr>status := RUNNING\<rparr>)"
  "active (st\<lparr>hasWarning := w\<rparr>) = active st"
  by (simp_all add: active_def)

lemma handler_ok_create: "handler_ok s \<Longrightarrow> handler_ok (snd (create nm i er s))"
  by (auto simp: create_def handler_ok_def Let_def update_conv' active_def split: option.splits)

lemma handler_ok_start: "handler_ok s \<Longrightarrow> handler_ok (handler_start k s)"
  by (auto simp: handler_start_def handler_ok_def update_conv' active_def split: option.splits)

lemma handler_ok_write: "handler_ok s \<Longrightarrow> handler_ok (handler_write k m s)"
  by (auto simp: handler_write_def handler_ok_def split: option.splits)

lemma handler_ok_debug: "handler_ok s \<Longrightarrow> handler_ok (handler_debug k m s)"
  by (auto simp: handler_debug_def handler_ok_def split: option.splits)

lemma handler_ok_info: "handler_ok s \<Longrightarrow> handler_ok (handler_info k m s)"
  by (auto simp: handler_info_def handler_ok_def split: option.splits)

lemma handler_ok_warn: "handler_ok s \<Longrightarrow> handler_ok (handler_warn k m s)"
  by (auto simp: handler_warn_def handler_ok_def update_conv' split: option.splits)

lemma handler_ok_finish: "handler_ok s \<Longrightarrow> handler_ok (handler_finish k err skip s)"
  by (auto simp: handler_finish_def handler_ok_def Let_def split: option.splits)

lemma handler_ok_reset: "handler_ok s \<Longrightarrow> handler_ok (handler_resetCreationTimeStamp k s)"
  by (auto simp: handler_resetCreationTimeStamp_def handler_ok_def split: option.splits)

lemma handler_ok_call: "handler_ok s \<Longrightarrow> handler_ok (snd (call h m s))"
  by (cases h; cases m)
     (simp_all add: handler_ok_start handler_ok_write handler_ok_debug handler_ok_info
        handler_ok_warn handler_ok_finish handler_ok_reset split: option.split)

lemma handler_ok_flags [simp]:
  "handler_ok (s\<lparr>fatal := b\<rparr>) = handler_ok s"
  "handler_ok (s\<lparr>finished := b\<rparr>) = handler_ok s"
  "handler_ok (s\<lparr>clock := t\<rparr>) = handler_ok s"
  by (simp_all add: handler_ok_def split: option.split)

lemma handler_ok_job_finish: "handler_ok s \<Longrightarrow> handler_ok (finish err s)"
  by (auto simp: finish_def handler_ok_finish split: option.splits)

lemma handler_ok_fatalError: "handler_ok s \<Longrightarrow> handler_ok (snd (fatalError err s))"
  by (simp add: fatalError_def handler_ok_finish handler_ok_call handler_ok_create
      split_beta split: option.split)

lemma handler_ok_env:
  "handler_ok (addErrorMessageToEndOfSteps snapshot m s) = handler_ok s"
  "handler_ok (on_value r v s) = handler_ok s"
  by (simp_all add: addErrorMessageToEndOfSteps_def on_value_def handler_ok_def
      split: option.split)

lemma handler_ok_run: "handler_ok s \<Longrightarrow> handler_ok (run a s)"
  by (cases a)
     (simp_all add: handler_ok_create handler_ok_call handler_ok_job_finish
        handler_ok_fatalError handler_ok_env)

lemma reachable_handler_ok: "reachable s \<Longrightarrow> handler_ok s"
proof (induction rule: reachable.induct)
  case (init jobId t0 url lib ref now s)
  then show ?case
    by (auto simp: TaskLogger_def handler_ok_def split: if_splits)
next
  case (step s a)
  then show ?case by (simp add: handler_ok_run)
qed

subsection \<open>The status that finish leaves\<close>

lemma build_pending_eq:
  "build_pending =
     example_logger\<lparr> steps := [(''build'', build_step)], pushed := 1,
       writes := [PushStep (StepRef 0) ''build'' [] 1500000000],
       watchers := [(StepRef 0, ''build'')], handler := Some ''build'' \<rparr>"
  by (simp add: build_pending_def build_step_def example_logger_def create_def step_key_def
      id_or_empty_def seconds_def Let_def)

lemma build_pending_facts:
  "\<not> fatal build_pending" "\<not> finished build_pending"
  "map_of (steps build_pending) ''build'' = Some build_step"
  "handler build_pending = Some ''build''"
  "events build_pending = []"
  by (simp_all add: build_pending_eq example_logger_def)

lemma build_warned_eq:
  "build_warned =
     build_pending\<lparr> steps := [(''build'', build_step\<lparr>hasWarning := True\<rparr>)],
       writes := writes build_pending @
         [PushLog (StepRef 0) (yellow_line ''disk space low''), SetLastUpdate 1500000000000] \<rparr>"
  by (simp add: build_warned_def handler_warn_def build_pending_facts active_def)
     (simp add: build_pending_eq build_step_def example_logger_def)

lemma build_warned_facts:
  "\<not> fatal build_warned" "\<not> finished build_warned"
  "map_of (steps build_warned) ''build'' = Some (build_step\<lparr>hasWarning := True\<rparr>)"
  by (simp_all add: build_warned_eq build_pending_facts)

lemma build_step_active: "active build_step" "active (build_step\<lparr>hasWarning := True\<rparr>)"
  by (simp_all add: active_def build_step_def)

text \<open>
  Claim C1, as the code has it. On a job that is not fatal, \<open>finish(err, skip)\<close> on a pending
  or running step leaves the status that the three assignments of the source give in their
  order: warning when \<open>err\<close> is falsy and \<open>hasWarning\<close> is set; otherwise skipped when
  \<open>skip\<close> is truthy; otherwise error when \<open>err\<close> is truthy; otherwise success.
\<close>

theorem C1_finish_status_order:
  assumes "\<not> fatal s" and "map_of (steps s) k = Some st" and "active st"
  shows "map_option status (map_of (steps (snd (call (StepHandle k) (Finish err skip) s))) k) =
           Some (if \<not> truthy err \<and> hasWarning st then WARNING
                 else if truthy skip then SKIPPED
                 else if truthy err then ERROR
                 else SUCCESS)"
  using assms by (simp add: handler_finish_def finish_status_def Let_def update_conv')

text \<open>
  Claim C1 at a warned step (warning without an error, error with one) and at a step without
  warning (skipped, success).
\<close>

theorem C1_finish_status_order_witness:
  "\<not> fatal build_warned \<and> map_of (steps build_warned) ''build'' \<noteq> None
   \<and> map_option status (map_of (steps (snd (call (StepHandle ''build'')
         (Finish JUndefined JUndefined) build_warned))) ''build'') = Some WARNING
   \<and> map_option status (map_of (steps (snd (call (StepHandle ''build'')
         (Finish (JError ''boom'') JUndefined) build_warned))) ''build'') = Some ERROR
   \<and> map_option status (map_of (steps (snd (call (StepHandle ''build'')
         (Finish JUndefined (JBool True)) build_pending))) ''build'') = Some SKIPPED
   \<and> map_option status (map_of (steps (snd (call (StepHandle ''build'')
         (Finish JUndefined JUndefined) build_pending))) ''build'') = Some SUCCESS"
proof -
  note warned = C1_finish_status_order
    [OF build_warned_facts(1) build_warned_facts(3) build_step_active(2)]
  note pending = C1_finish_status_order
    [OF build_pending_facts(1) build_pending_facts(3) build_step_active(1)]
  show ?thesis
    using warned [where err = JUndefined and skip = JUndefined]
          warned [where err = "JError ''boom''" and skip = JUndefined]
          pending [where err = JUndefined and skip = "JBool True"]
          pending [where err = JUndefined and skip = JUndefined]
          build_warned_facts(1) build_warned_facts(3)
    by (simp add: build_step_def)
qed

text \<open>
  Claim C1 as stated fails: \<open>finish(undefined, true)\<close> on a step with \<open>hasWarning\<close> set yields
  warning, not skipped, and \<open>finish(err, true)\<close> yields skipped, not error.
\<close>

theorem C1_counterexample:
  "map_option status (map_of (steps (snd (call (StepHandle ''build'')
       (Finish JUndefined (JBool True)) build_warned))) ''build'') = Some WARNING
   \<and> map_option status (map_of (steps (snd (call (StepHandle ''build'')
       (Finish JUndefined (JBool True)) build_warned))) ''build'') \<noteq> Some SKIPPED
   \<and> map_option status (map_of (steps (snd (call (StepHandle ''build'')
       (Finish (JError ''boom'') (JBool True)) build_pending))) ''build'') = Some SKIPPED
   \<and> map_option status (map_of (steps (snd (call (StepHandle ''build'')
       (Finish (JError ''boom'') (JBool True)) build_pending))) ''build'') \<noteq> Some ERROR"
  by (simp add: handler_finish_def finish_status_def Let_def update_conv'
      build_warned_facts build_pending_facts build_step_def active_def)

subsection \<open>The fatal latch\<close>

lemma fatal_create: "fatal s \<Longrightarrow> create nm i er s = (NullHandle, s)"
  by (simp add: create_def)

lemma fatal_call: "fatal s \<Longrightarrow> snd (call h m s) = s"
  by (cases h; cases m)
     (simp_all add: handler_start_def handler_write_def handler_debug_def handler_warn_def
        handler_info_def handler_finish_def handler_resetCreationTimeStamp_def
        split: option.split)

lemma fatal_run: "fatal s \<Longrightarrow> fatal (run a s)"
  by (cases a)
     (simp_all add: fatal_create fatal_call finish_def fatalError_def
        addErrorMessageToEndOfSteps_def on_value_def split: option.split)

lemma fatal_runs: "fatal s \<Longrightarrow> fatal (runs acts s)"
  by (induction acts arbitrary: s) (simp_all add: fatal_run)

text \<open>
  Claim C4. \<open>fatalError\<close> with a falsy argument throws the \<open>CFError\<close> and changes nothing:
  the fatal flag is as it was, and any run after the call goes as it would without it.
\<close>

theorem C4_fatalError_without_error_throws:
  assumes "\<not> truthy err"
  shows "fatalError err s
           = (Thrown (CFError ''fatalError was called without an error. not valid.''), s)
       \<and> fatal (snd (fatalError err s)) = fatal s
       \<and> runs (FatalError err # acts) s = runs acts s"
  using assms by (simp add: fatalError_def)

text \<open>
  Claim C4 at \<open>undefined\<close>, the empty string and \<open>null\<close>, on the logger with a pending step.
\<close>

theorem C4_fatalError_without_error_throws_witness:
  "\<not> truthy JUndefined
   \<and> fatalError JUndefined build_pending
       = (Thrown (CFError ''fatalError was called without an error. not valid.''), build_pending)
   \<and> \<not> fatal (snd (fatalError JUndefined build_pending))
   \<and> \<not> fatal (snd (fatalError (JStr []) build_pending))
   \<and> runs [FatalError JNull, Call (StepHandle ''build'') (Write ''compiling'')] build_pending
       = runs [Call (StepHandle ''build'') (Write ''compiling'')] build_pending"
proof -
  have u: "\<not> truthy JUndefined" and e: "\<not> truthy (JStr [])" and n: "\<not> truthy JNull"
    by simp_all
  show ?thesis
    using C4_fatalError_without_error_throws [OF u, where s = build_pending and acts = "[]"]
          C4_fatalError_without_error_throws [OF e, where s = build_pending and acts = "[]"]
          C4_fatalError_without_error_throws [OF n, where s = build_pending
            and acts = "[Call (StepHandle ''build'') (Write ''compiling'')]"]
          build_pending_facts(1)
    by simp
qed

text \<open>
  Claim C7. Once \<open>fatal\<close> is set, a call of any method on any handle leaves the logger as it
  is (no write, no change of a status, no event), the seven guarded methods of a step handle
  return normally, and no run of the logger resets the flag.
\<close>

theorem C7_fatal_latch_silences_handles:
  assumes "fatal s"
  shows "snd (call h m s) = s
       \<and> call (StepHandle k) Start s = (Returned RetUndefined, s)
       \<and> call (StepHandle k) (Write x) s = (Returned RetUndefined, s)
       \<and> call (StepHandle k) (Debug x) s = (Returned RetUndefined, s)
       \<and> call (StepHandle k) (Info x) s = (Returned RetUndefined, s)
       \<and> call (StepHandle k) (Warn x) s = (Returned RetUndefined, s)
       \<and> call (StepHandle k) (Finish err skip) s = (Returned RetUndefined, s)
       \<and> call (StepHandle k) ResetCreationTimeStamp s = (Returned RetUndefined, s)
       \<and> fatal (run a s)
       \<and> fatal (runs acts s)"
proof -
  have "snd (call h m s) = s"
    using assms by (rule fatal_call)
  moreover have "fatal (run a s)" "fatal (runs acts s)"
    using assms by (simp_all add: fatal_run fatal_runs)
  moreover have "call (StepHandle k) Start s = (Returned RetUndefined, s)"
    "call (StepHandle k) (Write x) s = (Returned RetUndefined, s)"
    "call (StepHandle k) (Debug x) s = (Returned RetUndefined, s)"
    "call (StepHandle k) (Info x) s = (Returned RetUndefined, s)"
    "call (StepHandle k) (Warn x) s = (Returned RetUndefined, s)"
    "call (StepHandle k) (Finish err skip) s = (Returned RetUndefined, s)"
    "call (StepHandle k) ResetCreationTimeStamp s = (Returned RetUndefined, s)"
    using assms
    by (simp_all add: handler_start_def handler_write_def handler_debug_def handler_warn_def
        handler_info_def handler_finish_def handler_resetCreationTimeStamp_def)
  ultimately show ?thesis by simp
qed

lemma build_failed_eq:
  "build_failed =
     build_pending\<lparr> steps := [(''build'',
         build_step\<lparr>finishTimeStamp := Some 1500000000, status := ERROR\<rparr>)],
       writes := writes build_pending @
         [PushLog (StepRef 0) (red_line ''Error: boom''),
          UpdateStep (StepRef 0) ERROR (Some 1500000000),
          SetLastUpdate 1500000000000],
       handler := None, fatal := True \<rparr>"
  by (simp add: build_failed_def fatalError_def handler_finish_def build_pending_facts
        build_step_active finish_status_def Let_def)
     (simp add: build_pending_eq build_step_def example_logger_def seconds_def)

lemma build_failed_facts:
  "fatal build_failed"
  "map_of (steps build_failed) ''build''
     = Some (build_step\<lparr>finishTimeStamp := Some 1500000000, status := ERROR\<rparr>)"
  "events build_failed = []"
  by (simp_all add: build_failed_eq build_pending_eq example_logger_def)

text \<open>
  Claim C7 on the logger after a fatal error.
\<close>

theorem C7_fatal_latch_silences_handles_witness:
  "fatal build_failed
   \<and> call (StepHandle ''build'') (Write ''late'') build_failed = (Returned RetUndefined, build_failed)
   \<and> call (StepHandle ''build'') (Finish JUndefined JUndefined) build_failed
        = (Returned RetUndefined, build_failed)
   \<and> call (StepHandle ''build'') Start build_failed = (Returned RetUndefined, build_failed)
   \<and> fatal (runs [Create ''deploy'' None None, JobFinish JUndefined, Tick 7] build_failed)"
  using C7_fatal_latch_silences_handles [OF build_failed_facts(1),
          where k = "''build''" and x = "''late''" and err = JUndefined and skip = JUndefined
            and acts = "[Create ''deploy'' None None, JobFinish JUndefined, Tick 7]"]
        build_failed_facts(1)
  by simp

subsection \<open>Calls on a step that has finished\<close>


lemma finish_status_terminal:
  "finish_status err skip w \<in> {SUCCESS, ERROR, SKIPPED, WARNING}"
  by (simp add: finish_status_def Let_def)








subsection \<open>The null handle\<close>

text \<open>
  Claim C2 says that every method of the handle that \<open>create\<close> returns on a fatal job is a
  safe no-op. The object has no \<open>start\<close>, \<open>resetCreationTimeStamp\<close> or \<open>getStatus\<close>: calling
  them throws a \<open>TypeError\<close>.
\<close>

theorem C2_null_handle_lacks_start:
  "create ''deploy'' None None build_failed = (NullHandle, build_failed)
   \<and> call NullHandle Start build_failed
       = (Thrown (TypeError ''start is not a function''), build_failed)
   \<and> call NullHandle ResetCreationTimeStamp build_failed
       = (Thrown (TypeError ''resetCreationTimeStamp is not a function''), build_failed)
   \<and> call NullHandle GetStatus build_failed
       = (Thrown (TypeError ''getStatus is not a function''), build_failed)"
  by (simp add: fatal_create build_failed_facts)

text \<open>
  On a fatal or finished job \<open>create\<close> returns the null handle and changes nothing, and
  the eight methods the null handle has return \<open>undefined\<close> and change nothing.
\<close>

theorem null_handle_own_methods_do_nothing:
  assumes "fatal s \<or> finished s"
  shows "create nm i er s = (NullHandle, s)
       \<and> call NullHandle GetReference s = (Returned RetUndefined, s)
       \<and> call NullHandle GetLogsReference s = (Returned RetUndefined, s)
       \<and> call NullHandle GetLastUpdateReference s = (Returned RetUndefined, s)
       \<and> call NullHandle (Write x) s = (Returned RetUndefined, s)
       \<and> call NullHandle (Debug x) s = (Returned RetUndefined, s)
       \<and> call NullHandle (Warn x) s = (Returned RetUndefined, s)
       \<and> call NullHandle (Info x) s = (Returned RetUndefined, s)
       \<and> call NullHandle (Finish err skip) s = (Returned RetUndefined, s)"
  using assms by (simp add: create_null)

text \<open>
  The null handle on the logger after a fatal error.
\<close>

theorem null_handle_own_methods_do_nothing_witness:
  "fatal build_failed
   \<and> create ''deploy'' None None build_failed = (NullHandle, build_failed)
   \<and> call NullHandle (Write ''late'') build_failed = (Returned RetUndefined, build_failed)"
  using null_handle_own_methods_do_nothing [of build_failed "''deploy''" None None "''late''"]
        build_failed_facts(1)
  by simp

subsection \<open>A fatal error\<close>








lemma reachable_build_pending: "reachable build_pending"
  unfolding build_pending_def using reachable_example_logger by (rule reachable.step)




subsection \<open>Repeated creation\<close>












lemma steps_unchanged:
  "steps (handler_write k m s) = steps s"
  "steps (handler_debug k m s) = steps s"
  "steps (handler_info k m s) = steps s"
  "steps (handler_resetCreationTimeStamp k s) = steps s"
  "steps (addErrorMessageToEndOfSteps snapshot m s) = steps s"
  "steps (on_value r v s) = steps s"
  by (simp_all add: handler_write_def handler_debug_def handler_info_def
      handler_resetCreationTimeStamp_def addErrorMessageToEndOfSteps_def on_value_def
      split: option.split)













subsection \<open>Scenarios and the state machine of a step\<close>

text \<open>The definitions a run of the example logger unfolds.\<close>

lemmas run_defs =
  example_logger_def empty_store_def create_def step_key_def id_or_empty_def seconds_def
  handler_start_def handler_write_def handler_warn_def handler_finish_def finish_status_def
  active_def persisted_def Let_def

text \<open>
  The first scenario: \<open>create("build")\<close>, \<open>start()\<close>, \<open>write("compiling")\<close>, \<open>finish()\<close> ends with
  status success and a finish time, in memory and in the store, with the one log line
  \<open>compiling\<close> stored and no \<open>"error"\<close> event.
\<close>

theorem scenario_build_succeeds:
  "map_option status (map_of (steps scenario_build) ''build'') = Some SUCCESS
   \<and> map_option finishTimeStamp (map_of (steps scenario_build) ''build'')
        = Some (Some 1500000000)
   \<and> stored_status (stored_steps (persisted empty_store scenario_build) (StepRef 0))
        = Some SUCCESS
   \<and> stored_finishTimeStamp (stored_steps (persisted empty_store scenario_build) (StepRef 0))
        = Some 1500000000
   \<and> stored_logs (stored_steps (persisted empty_store scenario_build) (StepRef 0))
        = [''compiling'']
   \<and> events scenario_build = []"
  by (simp add: scenario_build_def run_defs)

text \<open>
  The second scenario: \<open>create("deploy")\<close>, \<open>start()\<close>, \<open>warn("disk space low")\<close>, \<open>finish()\<close>
  ends with status warning and the one yellow log line stored.
\<close>

theorem scenario_deploy_warns:
  "map_option status (map_of (steps scenario_deploy) ''deploy'') = Some WARNING
   \<and> stored_status (stored_steps (persisted empty_store scenario_deploy) (StepRef 0))
        = Some WARNING
   \<and> stored_logs (stored_steps (persisted empty_store scenario_deploy) (StepRef 0))
        = [yellow_line ''disk space low'']
   \<and> events scenario_deploy = []"
  by (simp add: scenario_deploy_def run_defs)

text \<open>
  In every state a logger can reach, the variable \<open>handler\<close>, when defined, holds a handle
  on a step that exists and is pending or running.
\<close>

theorem active_handle_is_pending_or_running:
  assumes "reachable s" and "handler s = Some k"
  shows "\<exists>st. map_of (steps s) k = Some st \<and> status st \<in> {PENDING, RUNNING}"
  using reachable_handler_ok [OF assms(1)] assms(2)
  by (auto simp: handler_ok_def active_def split: option.splits)

text \<open>
  The handle of the logger after \<open>create("build")\<close>.
\<close>

theorem active_handle_is_pending_or_running_witness:
  "reachable build_pending \<and> handler build_pending = Some ''build''
   \<and> map_option status (map_of (steps build_pending) ''build'') = Some PENDING"
  using active_handle_is_pending_or_running [OF reachable_build_pending build_pending_facts(4)]
    reachable_build_pending build_pending_facts(3,4)
  by (simp add: build_step_def)

lemma step_kept_start:
  assumes "map_of (steps s) k = Some st"
  shows "\<exists>st'. map_of (steps (handler_start k' s)) k = Some st'
     \<and> (st' = st \<or> (status st = PENDING \<and> st' = st\<lparr>status := RUNNING\<rparr>))"
  using assms by (auto simp: handler_start_def update_conv' split: option.splits)

lemma step_kept_warn:
  assumes "map_of (steps s) k = Some st"
  shows "\<exists>st'. map_of (steps (handler_warn k' m s)) k = Some st'
     \<and> (st' = st \<or> st' = st\<lparr>hasWarning := True\<rparr>)"
  using assms by (auto simp: handler_warn_def update_conv' split: option.splits)

lemma step_kept_finish:
  assumes "map_of (steps s) k = Some st"
  shows "\<exists>st'. map_of (steps (handler_finish k' err skip s)) k = Some st'
     \<and> (st' = st \<or> (active st \<and> st' = st\<lparr> finishTimeStamp := Some (seconds (clock s)),
                         status := finish_status err skip (hasWarning st) \<rparr>))"
  using assms by (auto simp: handler_finish_def Let_def update_conv' split: option.splits)

text \<open>
  The state machine of a step under the methods of any handle: a call keeps every step, with
  its name, id, reference and creation time, and either keeps its status, or moves it from
  pending to running, or moves it from pending or running to a terminal status. No call
  leaves a terminal status; only \<open>create\<close> resets one.
\<close>

theorem handle_call_moves_status_forward:
  assumes "map_of (steps s) k = Some st"
  shows "\<exists>st'. map_of (steps (snd (call h m s))) k = Some st'
     \<and> (status st' = status st
        \<or> (status st = PENDING \<and> status st' = RUNNING)
        \<or> (status st \<in> {PENDING, RUNNING} \<and> status st' \<in> {SUCCESS, ERROR, SKIPPED, WARNING}))
     \<and> name st' = name st \<and> step_id st' = step_id st \<and> firebaseRef st' = firebaseRef st
     \<and> creationTimeStamp st' = creationTimeStamp st"
proof (cases h)
  case NullHandle
  then show ?thesis using assms by simp
next
  case (StepHandle k')
  show ?thesis
  proof (cases m)
    case Start
    from step_kept_start [OF assms, of k'] obtain st' where
      "map_of (steps (handler_start k' s)) k = Some st'"
      "st' = st \<or> (status st = PENDING \<and> st' = st\<lparr>status := RUNNING\<rparr>)"
      by (elim exE conjE)
    then show ?thesis unfolding StepHandle Start by (intro exI [of _ st']) auto
  next
    case (Warn x)
    from step_kept_warn [OF assms, of k' x] obtain st' where
      "map_of (steps (handler_warn k' x s)) k = Some st'"
      "st' = st \<or> st' = st\<lparr>hasWarning := True\<rparr>"
      by (elim exE conjE)
    then show ?thesis unfolding StepHandle Warn by (intro exI [of _ st']) auto
  next
    case (Finish err skip)
    from step_kept_finish [OF assms, of k' err skip] obtain st' where
      "map_of (steps (handler_finish k' err skip s)) k = Some st'"
      "st' = st \<or> (active st \<and> st' = st\<lparr> finishTimeStamp := Some (seconds (clock s)),
                         status := finish_status err skip (hasWarning st) \<rparr>)"
      by (elim exE conjE)
    then show ?thesis
      unfolding StepHandle Finish
      using finish_status_terminal [of err skip "hasWarning st"]
      by (intro exI [of _ st']) (auto simp: active_def)
  qed (use assms StepHandle in \<open>simp_all add: steps_unchanged split: option.split\<close>)
qed

text \<open>
  \<open>start()\<close> on the pending step \<open>build\<close>.
\<close>

theorem handle_call_moves_status_forward_witness:
  "map_of (steps build_pending) ''build'' = Some build_step
   \<and> map_option status
        (map_of (steps (snd (call (StepHandle ''build'') Start build_pending))) ''build'')
        = Some RUNNING
   \<and> map_option name
        (map_of (steps (snd (call (StepHandle ''build'') Start build_pending))) ''build'')
        = Some ''build''"
proof -
  from handle_call_moves_status_forward
    [OF build_pending_facts(3), of "StepHandle ''build''" Start]
  obtain st' where
    a: "map_of (steps (snd (call (StepHandle ''build'') Start build_pending))) ''build'' = Some st'"
    and n: "name st' = name build_step"
    by (elim exE conjE)
  have "map_option status
        (map_of (steps (snd (call (StepHandle ''build'') Start build_pending))) ''build'')
        = Some RUNNING"
    by (simp add: handler_start_def build_pending_facts update_conv' build_step_def)
  then show ?thesis
    using a n build_pending_facts(3) by (simp add: build_step_def)
qed

end
